theory Spec2Isabelle
  imports Complex_Main
begin

section \<open>Quadrature rules of \<^verbatim>\<open>Quadrature.py\<close>\<close>

text \<open>
  The module computes Riemann sums, the trapezoid rule and Simpson's rule of a function
  over a partitioned interval. A Python \<^verbatim>\<open>float\<close> is modelled by the real number it
  denotes. Where the module only computes a value, \<open>+\<close>, \<open>-\<close>, \<open>*\<close> and \<open>/\<close> are the
  exact operations of the reals, and what the properties below say about a value is said
  about the real number the formula denotes. Where the module decides on a float (the
  comparison in \<^verbatim>\<open>Simpson.__init__\<close>, the \<^verbatim>\<open>OverflowError\<close> of \<^verbatim>\<open>**\<close>, the
  \<^verbatim>\<open>ZeroDivisionError\<close> of \<^verbatim>\<open>/\<close>), the decision is taken on the binary64 result of
  the operation, rounded to nearest with ties to even. The endpoints of the partitions
  are taken to be finite.

  Every exception the module can raise is a value of \<open>error\<close>; a method that may raise
  returns \<open>error + 'a\<close>. The module raises \<^verbatim>\<open>ValueError(message)\<close> where the
  specification speaks of \<^verbatim>\<open>InvalidArgument\<close>.
\<close>

datatype error =
    ValueError string
  | IndexError
  | AttributeError
  | ZeroDivisionError
  | OverflowError

subsection \<open>Binary64 floats\<close>

text \<open>Rounding to the nearest integer, ties to the even one.\<close>

definition round_even :: "real \<Rightarrow> int" where
  "round_even q =
     (let n = \<lfloor>q\<rfloor>; d = q - of_int n
      in if d < 1 / 2 then n else if 1 / 2 < d then n + 1 else if even n then n else n + 1)"

text \<open>Rounding a real to binary64: a significand of 53 bits, the exponent of the last
  bit not below \<open>-1074\<close> (so that small numbers round to subnormal numbers or to zero),
  ties to even. The exponent is not bounded above: a result of magnitude \<open>2^1024\<close> or
  more stands for the infinity of its sign, which is what binary64 rounds such a
  number to.\<close>

definition round_double :: "real \<Rightarrow> real" where
  "round_double x =
     (if x = 0 then 0
      else let e = max (\<lfloor>log 2 \<bar>x\<bar>\<rfloor> - 52) (- 1074)
           in of_int (round_even (x / 2 powi e)) * 2 powi e)"

definition is_inf :: "real \<Rightarrow> bool" where
  "is_inf x = (2 ^ 1024 \<le> \<bar>x\<bar>)"

text \<open>\<^verbatim>\<open>a - b\<close> on floats. The difference of two infinities of the same sign is NaN,
  which is \<open>None\<close> here; no comparison with NaN holds.\<close>

definition float_sub :: "real \<Rightarrow> real \<Rightarrow> real option" where
  "float_sub a b =
     (if is_inf a then (if is_inf b \<and> (0 < a) = (0 < b) then None else Some a)
      else if is_inf b then Some (- b)
      else Some (round_double (a - b)))"

fun float_less :: "real option \<Rightarrow> real \<Rightarrow> bool" where
  "float_less None c = False"
| "float_less (Some x) c = (x < c)"




subsection \<open>The imported module \<^verbatim>\<open>Interval\<close>\<close>

text \<open>
  Modelled from the spec: \<^verbatim>\<open>Interval.py\<close> (the classes \<^verbatim>\<open>Partition\<close>,
  \<^verbatim>\<open>Interval\<close>, \<^verbatim>\<open>Point\<close>, \<^verbatim>\<open>AnnotatedFunction\<close> and \<^verbatim>\<open>Method\<close>) is
  imported by \<^verbatim>\<open>Quadrature.py\<close> and is not part of the sources. A field is named
  after its class and the attribute \<^verbatim>\<open>Quadrature.py\<close> reads.
\<close>

text \<open>Modelled from the spec: a Partition has \<^verbatim>\<open>start\<close>, \<^verbatim>\<open>end\<close> and the derived
  \<^verbatim>\<open>length = end - start\<close>, a float: the difference as binary64 rounds it.\<close>

record Partition =
  Partition_start :: real
  Partition_end :: real

definition Partition_length :: "Partition \<Rightarrow> real" where
  "Partition_length p = round_double (Partition_end p - Partition_start p)"

text \<open>Modelled from the spec: an Interval exposes \<^verbatim>\<open>start\<close>, \<^verbatim>\<open>end\<close> and
  \<^verbatim>\<open>partitions\<close>, the full ordered sequence; iterating over it yields the partitions
  from left to right and indexing it indexes that sequence.\<close>

record Interval =
  Interval_start :: real
  Interval_end :: real
  Interval_partitions :: "Partition list"

text \<open>Python's \<^verbatim>\<open>xs[i]\<close> on a list: a negative index counts from the end, an index
  out of range raises \<^verbatim>\<open>IndexError\<close>.\<close>

definition getitem :: "'a list \<Rightarrow> int \<Rightarrow> error + 'a" where
  "getitem xs i =
     (let j = (if i < 0 then i + int (length xs) else i)
      in if j < 0 \<or> int (length xs) \<le> j then Inl IndexError else Inr (xs ! nat j))"

text \<open>Python's \<^verbatim>\<open>xs[start:stop:step]\<close> for a positive step: each bound is moved into
  \<open>0..len\<close> (a negative one counts from the end), and the slice holds
  \<^verbatim>\<open>xs[start + k*step]\<close> for every \<open>k\<close> with \<^verbatim>\<open>start + k*step < stop\<close>.\<close>

definition slice_bound :: "nat \<Rightarrow> int \<Rightarrow> nat" where
  "slice_bound len i = (if i < 0 then nat (max 0 (int len + i)) else min len (nat i))"

definition getslice :: "'a list \<Rightarrow> int \<Rightarrow> int \<Rightarrow> nat \<Rightarrow> 'a list" where
  "getslice xs start stop step =
     (let lo = slice_bound (length xs) start;
          hi = slice_bound (length xs) stop
      in map (\<lambda>k. xs ! (lo + k * step)) [0 ..< (hi - lo + step - 1) div step])"

definition Interval_getitem :: "Interval \<Rightarrow> int \<Rightarrow> error + Partition" where
  "Interval_getitem interval i = getitem (Interval_partitions interval) i"

text \<open>Modelled from the spec: \<^verbatim>\<open>Interval(start, end, n)\<close> fails with
  \<^verbatim>\<open>InvalidArgument\<close> if \<open>n < 1\<close> or \<open>start \<ge> end\<close>, and otherwise produces \<open>n\<close>
  partitions of equal length \<open>(end - start) / n\<close>. The spec gives no message.\<close>

definition Interval_init :: "real \<Rightarrow> real \<Rightarrow> int \<Rightarrow> error + Interval" where
  "Interval_init start end' n =
     (if n < 1 \<or> start \<ge> end' then Inl (ValueError [])
      else let h = (end' - start) / of_int n
           in Inr \<lparr>Interval_start = start, Interval_end = end',
                   Interval_partitions =
                     map (\<lambda>i. \<lparr>Partition_start = start + of_nat i * h,
                                Partition_end = start + of_nat (Suc i) * h\<rparr>) [0 ..< nat n]\<rparr>)"

text \<open>Modelled from the spec: the invariants of an Interval. Its partitions are
  contiguous and ordered by position, none is empty, and their union is
  \<open>[start, end]\<close>.\<close>

fun contiguous :: "Partition list \<Rightarrow> bool" where
  "contiguous [] = True"
| "contiguous [p] = True"
| "contiguous (p # p' # ps) = (Partition_end p = Partition_start p' \<and> contiguous (p' # ps))"

definition Interval_valid :: "Interval \<Rightarrow> bool" where
  "Interval_valid interval =
     (let ps = Interval_partitions interval
      in ps \<noteq> [] \<and> list_all (\<lambda>p. Partition_start p < Partition_end p) ps \<and> contiguous ps
         \<and> Partition_start (hd ps) = Interval_start interval
         \<and> Partition_end (last ps) = Interval_end interval)"

text \<open>Modelled from the spec: a Point is an \<open>(x, y)\<close> pair with \<open>y\<close> the function value
  at \<open>x\<close>.\<close>

record Point =
  Point_x :: real
  Point_y :: real

text \<open>Modelled from the spec: an AnnotatedFunction pairs a function on the reals with an
  optional display string. The function is total: it raises nowhere.\<close>

record AnnotatedFunction =
  AnnotatedFunction_func :: "real \<Rightarrow> real"
  AnnotatedFunction_string :: "string option"

text \<open>
  Modelled from the spec: a Method is a strategy with the one operation
  \<^verbatim>\<open>choose(function, partition)\<close>, which returns a Point. The set of methods is open
  (\<open>Left, Right, Midpoint, Random, ...\<close>), so a method is modelled by its operation. The
  Random method draws from a random source and fails on a partition it cannot sample
  from; so \<open>Method_choose\<close> takes the state \<open>'s\<close> of that source, and returns either an error
  or the Point with the state after the call. The deterministic methods return the state
  as they got it and never fail.
\<close>

record 's Method =
  Method_choose :: "(real \<Rightarrow> real) \<Rightarrow> Partition \<Rightarrow> 's \<Rightarrow> error + (Point \<times> 's)"

text \<open>Modelled from the spec: Left has \<open>x = partition.start\<close>, Right has
  \<open>x = partition.end\<close>, Midpoint has \<open>x = (start + end) / 2\<close>; \<open>y\<close> is always \<open>f x\<close>.\<close>

definition Method_left :: "'s Method" where
  "Method_left =
     \<lparr>Method_choose = (\<lambda>f p s.
        Inr (\<lparr>Point_x = Partition_start p, Point_y = f (Partition_start p)\<rparr>, s))\<rparr>"

definition Method_right :: "'s Method" where
  "Method_right =
     \<lparr>Method_choose = (\<lambda>f p s.
        Inr (\<lparr>Point_x = Partition_end p, Point_y = f (Partition_end p)\<rparr>, s))\<rparr>"

definition Method_midpoint :: "'s Method" where
  "Method_midpoint =
     \<lparr>Method_choose = (\<lambda>f p s.
        Inr (\<lparr>Point_x = (Partition_start p + Partition_end p) / 2,
              Point_y = f ((Partition_start p + Partition_end p) / 2)\<rparr>, s))\<rparr>"

subsection \<open>\<^verbatim>\<open>class Quadrature\<close>\<close>

text \<open>The instance attributes set by \<^verbatim>\<open>Quadrature.__init__\<close>. No method of the module
  assigns to them afterwards: every method below takes the instance and returns a
  result, never a changed instance.\<close>

record 's Quadrature =
  Quadrature_func :: AnnotatedFunction
  Quadrature_interval :: Interval
  Quadrature_method :: "'s Method"

definition Quadrature_init :: "AnnotatedFunction \<Rightarrow> Interval \<Rightarrow> 's Method \<Rightarrow> 's Quadrature" where
  "Quadrature_init func interval method =
     \<lparr>Quadrature_func = func, Quadrature_interval = interval, Quadrature_method = method\<rparr>"

text \<open>The list comprehension of \<^verbatim>\<open>Quadrature.points\<close>: one call of
  \<^verbatim>\<open>method.choose\<close> per partition, from left to right; the first call that raises
  ends it.\<close>

fun points_comprehension ::
  "'s Method \<Rightarrow> (real \<Rightarrow> real) \<Rightarrow> Partition list \<Rightarrow> 's \<Rightarrow> error + (Point list \<times> 's)" where
  "points_comprehension method f [] s = Inr ([], s)"
| "points_comprehension method f (p # ps) s =
     (case Method_choose method f p s of
        Inl e \<Rightarrow> Inl e
      | Inr (point, s') \<Rightarrow>
          (case points_comprehension method f ps s' of
             Inl e \<Rightarrow> Inl e
           | Inr (points, s'') \<Rightarrow> Inr (point # points, s'')))"

definition Quadrature_points :: "'s Quadrature \<Rightarrow> 's \<Rightarrow> error + (Point list \<times> 's)" where
  "Quadrature_points self s =
     points_comprehension (Quadrature_method self)
       (AnnotatedFunction_func (Quadrature_func self))
       (Interval_partitions (Quadrature_interval self)) s"

subsection \<open>\<^verbatim>\<open>class Riemann\<close>\<close>

text \<open>\<^verbatim>\<open>Riemann\<close> inherits \<^verbatim>\<open>__init__\<close> and \<^verbatim>\<open>points\<close>. In \<^verbatim>\<open>calc\<close> the
  argument \<^verbatim>\<open>self.points\<close> of \<^verbatim>\<open>zip\<close> is evaluated once, before the loop runs.\<close>

definition Riemann_init :: "AnnotatedFunction \<Rightarrow> Interval \<Rightarrow> 's Method \<Rightarrow> 's Quadrature" where
  "Riemann_init func interval method = Quadrature_init func interval method"

definition Riemann_calc :: "'s Quadrature \<Rightarrow> 's \<Rightarrow> error + (real \<times> 's)" where
  "Riemann_calc self s =
     (case Quadrature_points self s of
        Inl e \<Rightarrow> Inl e
      | Inr (points, s') \<Rightarrow>
          Inr (fold (\<lambda>(partition, point) total. total + Partition_length partition * Point_y point)
                 (zip (Interval_partitions (Quadrature_interval self)) points) 0, s'))"

subsection \<open>\<^verbatim>\<open>class Trapezoid\<close>\<close>

definition Trapezoid_init :: "AnnotatedFunction \<Rightarrow> Interval \<Rightarrow> 's Quadrature" where
  "Trapezoid_init func interval = Quadrature_init func interval Method_left"

definition Trapezoid_points :: "'s Quadrature \<Rightarrow> 's \<Rightarrow> error + (Point list \<times> 's)" where
  "Trapezoid_points self s =
     (let x = Interval_end (Quadrature_interval self);
          y = AnnotatedFunction_func (Quadrature_func self) x
      in case Quadrature_points self s of
           Inl e \<Rightarrow> Inl e
         | Inr (points, s') \<Rightarrow> Inr (points @ [\<lparr>Point_x = x, Point_y = y\<rparr>], s'))"

definition Trapezoid_calc :: "'s Quadrature \<Rightarrow> 's \<Rightarrow> error + (real \<times> 's)" where
  "Trapezoid_calc self s =
     Inr (fold (\<lambda>partition total.
                  let h = Partition_length partition;
                      a = AnnotatedFunction_func (Quadrature_func self) (Partition_start partition);
                      b = AnnotatedFunction_func (Quadrature_func self) (Partition_end partition)
                  in total + (a + b) / 2 * h)
            (Interval_partitions (Quadrature_interval self)) 0, s)"

subsection \<open>\<^verbatim>\<open>class Simpson\<close>\<close>

text \<open>The generator handed to \<^verbatim>\<open>all\<close> in \<^verbatim>\<open>Simpson.__init__\<close>: for each
  partition \<open>i\<close> it reads \<^verbatim>\<open>interval[0]\<close> again and compares
  \<^verbatim>\<open>interval[0].length - i.length < 10**-3\<close>; \<^verbatim>\<open>all\<close> stops at the first
  comparison that is false. On an interval without partitions nothing is read. The
  difference is the float difference and \<^verbatim>\<open>10**-3\<close> is the float nearest to
  \<open>1/1000\<close>.\<close>

fun all_lengths_close :: "Interval \<Rightarrow> Partition list \<Rightarrow> error + bool" where
  "all_lengths_close interval [] = Inr True"
| "all_lengths_close interval (i # rest) =
     (case Interval_getitem interval 0 of
        Inl e \<Rightarrow> Inl e
      | Inr first \<Rightarrow>
          if float_less (float_sub (Partition_length first) (Partition_length i))
               (round_double (1 / 10 ^ 3))
          then all_lengths_close interval rest
          else Inr False)"

definition Simpson_init :: "AnnotatedFunction \<Rightarrow> Interval \<Rightarrow> error + 's Quadrature" where
  "Simpson_init func interval =
     (if length (Interval_partitions interval) mod 2 \<noteq> 0
      then Inl (ValueError ''Simson's rule only works with an even number of partitions.'')
      else case all_lengths_close interval (Interval_partitions interval) of
             Inl e \<Rightarrow> Inl e
           | Inr close \<Rightarrow>
               if \<not> close then Inl (ValueError ''All partition lengths must be the same.'')
               else Inr (Quadrature_init func interval Method_left))"

definition Simpson_points :: "'s Quadrature \<Rightarrow> 's \<Rightarrow> error + (Point list \<times> 's)" where
  "Simpson_points self s =
     (let x = Interval_end (Quadrature_interval self);
          y = AnnotatedFunction_func (Quadrature_func self) x
      in case Quadrature_points self s of
           Inl e \<Rightarrow> Inl e
         | Inr (points, s') \<Rightarrow> Inr (points @ [\<lparr>Point_x = x, Point_y = y\<rparr>], s'))"








text \<open>\<^verbatim>\<open>Simpson.calc\<close> reads \<^verbatim>\<open>self.points\<close> four times, and
  \<^verbatim>\<open>self.interval[0]\<close> last. \<open>Simpson_calc_with\<close> is the method with the
  operations \<^verbatim>\<open>+\<close>, \<^verbatim>\<open>*\<close> and \<^verbatim>\<open>/\<close> it applies to floats as parameters, so that
  the order in which it applies them can be stated; \<open>Simpson_calc\<close> is the method at
  the exact operations of the reals.\<close>

definition Simpson_calc_with ::
  "(real \<Rightarrow> real \<Rightarrow> real) \<Rightarrow> (real \<Rightarrow> real \<Rightarrow> real) \<Rightarrow> (real \<Rightarrow> real \<Rightarrow> real)
     \<Rightarrow> 's Quadrature \<Rightarrow> 's \<Rightarrow> error + (real \<times> 's)" where
  "Simpson_calc_with fadd fmul fdiv self s =
     (case Simpson_points self s of Inl e \<Rightarrow> Inl e | Inr (points1, s1) \<Rightarrow>
     (case getitem points1 0 of Inl e \<Rightarrow> Inl e | Inr point0 \<Rightarrow>
     (case Simpson_points self s1 of Inl e \<Rightarrow> Inl e | Inr (points2, s2) \<Rightarrow>
     (case getitem points2 (- 1) of Inl e \<Rightarrow> Inl e | Inr pointn \<Rightarrow>
        let area = fadd (Point_y point0) (Point_y pointn)
        in
     (case Simpson_points self s2 of Inl e \<Rightarrow> Inl e | Inr (points3, s3) \<Rightarrow>
        let area = fold (\<lambda>point area. fadd area (fmul 4 (Point_y point)))
                     (getslice points3 1 (- 1) 2) area
        in
     (case Simpson_points self s3 of Inl e \<Rightarrow> Inl e | Inr (points4, s4) \<Rightarrow>
        let area = fold (\<lambda>point area. fadd area (fmul 2 (Point_y point)))
                     (getslice points4 2 (- 1) 2) area
        in
     (case Interval_getitem (Quadrature_interval self) 0 of Inl e \<Rightarrow> Inl e | Inr first \<Rightarrow>
        Inr (fdiv (fmul area (Partition_length first)) 3, s4))))))))"

definition Simpson_calc :: "'s Quadrature \<Rightarrow> 's \<Rightarrow> error + (real \<times> 's)" where
  "Simpson_calc self s = Simpson_calc_with (+) (*) (/) self s"

subsection \<open>Example inputs\<close>

text \<open>The functions \<open>f(x) = x\<close> and \<open>f(x) = x^2\<close>, the interval \<open>[0, 2]\<close> in two
  partitions and \<open>[0, 3]\<close> in three, and \<open>[0, 3]\<close> with the breakpoints \<open>0, 1, 3\<close>.
  \<open>interval_boundary\<close> has the breakpoints \<open>-a, 0, b\<close> for the binary64 numbers
  \<open>a = 0x1.8624dd2f1a9fcp-10\<close> and \<open>b = 0x1.0000000000001p-11\<close>, about \<open>0.001488\<close> and
  \<open>0.000488\<close>; \<open>interval_huge\<close> is \<open>[0, 2^601]\<close> in two partitions of length
  \<open>2^600\<close>.\<close>

definition f_x :: AnnotatedFunction where
  "f_x = \<lparr>AnnotatedFunction_func = (\<lambda>x. x), AnnotatedFunction_string = Some ''x''\<rparr>"

definition f_x2 :: AnnotatedFunction where
  "f_x2 = \<lparr>AnnotatedFunction_func = (\<lambda>x. x ^ 2), AnnotatedFunction_string = Some ''x^2''\<rparr>"

definition interval_0_2_2 :: Interval where
  "interval_0_2_2 =
     \<lparr>Interval_start = 0, Interval_end = 2,
      Interval_partitions = [\<lparr>Partition_start = 0, Partition_end = 1\<rparr>,
                             \<lparr>Partition_start = 1, Partition_end = 2\<rparr>]\<rparr>"

definition interval_0_3_3 :: Interval where
  "interval_0_3_3 =
     \<lparr>Interval_start = 0, Interval_end = 3,
      Interval_partitions = [\<lparr>Partition_start = 0, Partition_end = 1\<rparr>,
                             \<lparr>Partition_start = 1, Partition_end = 2\<rparr>,
                             \<lparr>Partition_start = 2, Partition_end = 3\<rparr>]\<rparr>"

definition interval_0_1_3 :: Interval where
  "interval_0_1_3 =
     \<lparr>Interval_start = 0, Interval_end = 3,
      Interval_partitions = [\<lparr>Partition_start = 0, Partition_end = 1\<rparr>,
                             \<lparr>Partition_start = 1, Partition_end = 3\<rparr>]\<rparr>"

definition interval_boundary :: Interval where
  "interval_boundary =
     \<lparr>Interval_start = - (1715871458028159 / 2 ^ 60), Interval_end = 4503599627370497 / 2 ^ 63,
      Interval_partitions =
        [\<lparr>Partition_start = - (1715871458028159 / 2 ^ 60), Partition_end = 0\<rparr>,
         \<lparr>Partition_start = 0, Partition_end = 4503599627370497 / 2 ^ 63\<rparr>]\<rparr>"

definition interval_huge :: Interval where
  "interval_huge =
     \<lparr>Interval_start = 0, Interval_end = 2 ^ 601,
      Interval_partitions = [\<lparr>Partition_start = 0, Partition_end = 2 ^ 600\<rparr>,
                             \<lparr>Partition_start = 2 ^ 600, Partition_end = 2 ^ 601\<rparr>]\<rparr>"

section \<open>Properties\<close>

subsection \<open>Auxiliary facts\<close>

lemma round_even_of_int [simp]: "round_even (of_int m) = m"
  by (simp add: round_even_def)

lemma powr_2_int: "(2::real) powr real_of_int k = 2 powi k"
  by (simp add: powr_real_of_int power_int_def power_one_over [symmetric] inverse_eq_divide)

lemma floor_log2_eqI:
  assumes "2 powi k \<le> \<bar>x\<bar>" "\<bar>x\<bar> < 2 powi (k + 1)"
  shows "\<lfloor>log 2 \<bar>x\<bar>\<rfloor> = k"
proof -
  have "(0::real) < 2 powi k" by simp
  with assms(1) have pos: "0 < \<bar>x\<bar>" by linarith
  show ?thesis
    using assms powr_2_int [of k] powr_2_int [of "k + 1"]
    by (subst floor_log_eq_powr_iff [OF pos]) simp_all
qed

lemma round_double_eval:
  assumes "2 powi k \<le> \<bar>x\<bar>" "\<bar>x\<bar> < 2 powi (k + 1)"
  shows "round_double x =
           of_int (round_even (x / 2 powi (max (k - 52) (- 1074)))) * 2 powi (max (k - 52) (- 1074))"
proof -
  have "(0::real) < 2 powi k" by simp
  with assms(1) have "0 < \<bar>x\<bar>" by linarith
  then have "x \<noteq> 0" by simp
  then show ?thesis
    by (simp add: round_double_def floor_log2_eqI [OF assms] Let_def)
qed

lemma round_double_representable:
  assumes x: "x = of_int m * 2 powi e" and m: "2 ^ 52 \<le> \<bar>m\<bar>" "\<bar>m\<bar> < 2 ^ 53" and e: "- 1074 \<le> e"
  shows "round_double x = x"
proof -
  have p: "(0::real) < 2 powi e" by simp
  have ax: "\<bar>x\<bar> = of_int \<bar>m\<bar> * 2 powi e" by (simp add: x abs_mult)
  have e1: "2 powi (e + 52) = (2::real) ^ 52 * 2 powi e"
    and e2: "2 powi (e + 52 + 1) = (2::real) ^ 53 * 2 powi e"
    by (simp_all add: power_int_add)
  have "real_of_int (2 ^ 52) \<le> of_int \<bar>m\<bar>" using m(1) by (rule of_int_le_iff [THEN iffD2])
  then have m1: "(2::real) ^ 52 \<le> of_int \<bar>m\<bar>" by simp
  have "real_of_int \<bar>m\<bar> < of_int (2 ^ 53)" using m(2) by (rule of_int_less_iff [THEN iffD2])
  then have m2: "of_int \<bar>m\<bar> < (2::real) ^ 53" by simp
  have "2 powi (e + 52) \<le> \<bar>x\<bar>"
    unfolding ax e1 using m1 p by (rule mult_right_mono [OF _ less_imp_le])
  moreover have "\<bar>x\<bar> < 2 powi (e + 52 + 1)"
    unfolding ax e2 using m2 p by (rule mult_strict_right_mono)
  ultimately have "round_double x =
      of_int (round_even (x / 2 powi (max (e + 52 - 52) (- 1074)))) * 2 powi (max (e + 52 - 52) (- 1074))"
    by (rule round_double_eval)
  with e show ?thesis by (simp add: x max_def)
qed

lemma round_double_0 [simp]: "round_double 0 = 0"
  by (simp add: round_double_def)

lemma round_double_1 [simp]: "round_double 1 = 1"
  by (rule round_double_representable [where m = "2 ^ 52" and e = "- 52"]) simp_all

lemma round_double_m1 [simp]: "round_double (- 1) = - 1"
  by (rule round_double_representable [where m = "- (2 ^ 52)" and e = "- 52"]) simp_all

lemma round_double_2 [simp]: "round_double 2 = 2"
  by (rule round_double_representable [where m = "2 ^ 52" and e = "- 51"]) simp_all

lemma round_double_milli: "round_double (1 / 10 ^ 3) = 1152921504606847 / 2 ^ 60"
  by (subst round_double_eval [where k = "- 10"]) (simp_all add: round_even_def Let_def)

lemma round_even_nonpos: "q \<le> 0 \<Longrightarrow> round_even q \<le> 0"
proof -
  assume q: "q \<le> 0"
  then have f: "\<lfloor>q\<rfloor> \<le> 0" by (simp add: floor_le_zero)
  have "\<lfloor>q\<rfloor> \<le> - 1" if "q \<noteq> of_int \<lfloor>q\<rfloor>"
  proof -
    from that q have "q < 0" by (cases "q = 0") auto
    then have "\<lfloor>q\<rfloor> < 0" by (simp add: floor_less_zero)
    then show ?thesis by linarith
  qed
  with f show ?thesis
    by (auto simp: round_even_def Let_def)
qed

lemma round_double_nonpos: "x \<le> 0 \<Longrightarrow> round_double x \<le> 0"
proof -
  assume x: "x \<le> 0"
  have "round_even (x / 2 powi e) \<le> 0" for e
    by (rule round_even_nonpos) (use x in \<open>simp add: divide_nonpos_pos\<close>)
  then have "real_of_int (round_even (x / 2 powi e)) * 2 powi e \<le> 0" for e
    by (simp add: mult_le_0_iff)
  then show ?thesis by (simp add: round_double_def Let_def)
qed

lemma is_inf_small [simp]: "\<bar>x\<bar> \<le> 2 ^ 601 \<Longrightarrow> \<not> is_inf x"
proof -
  assume "\<bar>x\<bar> \<le> 2 ^ 601"
  moreover have "(2::real) ^ 601 < 2 ^ 1024" by (rule power_strict_increasing) simp_all
  ultimately show ?thesis by (simp add: is_inf_def)
qed

lemma Interval_valid_examples:
  "Interval_valid interval_0_2_2" "Interval_valid interval_0_3_3" "Interval_valid interval_0_1_3"
  "Interval_valid interval_boundary" "Interval_valid interval_huge"
  by (simp_all add: Interval_valid_def interval_0_2_2_def interval_0_3_3_def interval_0_1_3_def
      interval_boundary_def interval_huge_def)

lemma Interval_init_0_2_2: "Interval_init 0 2 2 = Inr interval_0_2_2"
  by (simp add: Interval_init_def interval_0_2_2_def upt_conv_Cons)

lemma Interval_init_0_3_3: "Interval_init 0 3 3 = Inr interval_0_3_3"
  by (simp add: Interval_init_def interval_0_3_3_def upt_conv_Cons)

lemma Method_choose_simps [simp]:
  "Method_choose Method_left f p s =
     Inr (\<lparr>Point_x = Partition_start p, Point_y = f (Partition_start p)\<rparr>, s)"
  "Method_choose Method_right f p s =
     Inr (\<lparr>Point_x = Partition_end p, Point_y = f (Partition_end p)\<rparr>, s)"
  "Method_choose Method_midpoint f p s =
     Inr (\<lparr>Point_x = (Partition_start p + Partition_end p) / 2,
           Point_y = f ((Partition_start p + Partition_end p) / 2)\<rparr>, s)"
  by (simp_all add: Method_left_def Method_right_def Method_midpoint_def)

lemma points_comprehension_length:
  "points_comprehension method f ps s = Inr (points, s') \<Longrightarrow> length points = length ps"
  by (induction ps arbitrary: s points) (auto split: sum.splits prod.splits)

lemma points_comprehension_chosen:
  "points_comprehension method f ps s = Inr (points, s') \<Longrightarrow> i < length ps \<Longrightarrow>
   \<exists>t t'. Method_choose method f (ps ! i) t = Inr (points ! i, t')"
proof (induction ps arbitrary: s points i)
  case Nil
  then show ?case by simp
next
  case (Cons p ps)
  from Cons.prems(1) obtain point s1 rest where
    c: "Method_choose method f p s = Inr (point, s1)" and
    r: "points_comprehension method f ps s1 = Inr (rest, s')" and
    e: "points = point # rest"
    by (auto split: sum.splits prod.splits)
  show ?case
  proof (cases i)
    case 0
    with c e show ?thesis by auto
  next
    case (Suc j)
    with Cons.prems(2) have "j < length ps" by simp
    from Cons.IH [OF r this] Suc e show ?thesis by simp
  qed
qed

lemma points_comprehension_pure:
  "(\<And>p s. Method_choose method f p s = Inr (g p, s)) \<Longrightarrow>
   points_comprehension method f ps s = Inr (map g ps, s)"
  by (induction ps) auto

lemma fold_zip_sum:
  "length points = length ps \<Longrightarrow>
   fold (\<lambda>(partition, point) total. total + Partition_length partition * Point_y point)
     (zip ps points) a
   = a + (\<Sum>i<length ps. Partition_length (ps ! i) * Point_y (points ! i))"
proof (induction ps points arbitrary: a rule: list_induct2')
  case (4 p ps pt pts)
  then show ?case
    by (simp add: sum.lessThan_Suc_shift add.assoc del: sum.lessThan_Suc)
qed simp_all

lemma fold_trapezoid:
  "fold (\<lambda>partition total.
           let h = Partition_length partition; a = f (Partition_start partition);
               b = f (Partition_end partition)
           in total + (a + b) / 2 * h) ps t
   = t + (\<Sum>p\<leftarrow>ps. (f (Partition_start p) + f (Partition_end p)) / 2 * Partition_length p)"
  by (induction ps arbitrary: t) (simp_all add: Let_def add.assoc)

lemma Riemann_calc_Inr:
  assumes "Quadrature_points self s = Inr (points, s')"
  shows "Riemann_calc self s =
           Inr (\<Sum>i<length (Interval_partitions (Quadrature_interval self)).
                  Partition_length (Interval_partitions (Quadrature_interval self) ! i)
                    * Point_y (points ! i), s')"
proof -
  have "length points = length (Interval_partitions (Quadrature_interval self))"
    using assms unfolding Quadrature_points_def by (rule points_comprehension_length)
  then show ?thesis
    using assms by (simp add: Riemann_calc_def fold_zip_sum)
qed

lemma Riemann_calc_left_example:
  "Riemann_calc (Riemann_init f_x interval_0_2_2 Method_left) s = Inr (1, s)"
  by (simp add: Riemann_calc_def Riemann_init_def Quadrature_init_def Quadrature_points_def
      f_x_def interval_0_2_2_def Partition_length_def)

lemma Riemann_calc_right_example:
  "Riemann_calc (Riemann_init f_x interval_0_2_2 Method_right) s = Inr (3, s)"
  by (simp add: Riemann_calc_def Riemann_init_def Quadrature_init_def Quadrature_points_def
      f_x_def interval_0_2_2_def Partition_length_def)

lemma Quadrature_points_left:
  "Quadrature_points (Quadrature_init func interval Method_left) s =
     Inr (map (\<lambda>p. \<lparr>Point_x = Partition_start p,
                      Point_y = AnnotatedFunction_func func (Partition_start p)\<rparr>)
            (Interval_partitions interval), s)"
  by (simp add: Quadrature_points_def Quadrature_init_def points_comprehension_pure)

lemma Simpson_points_left:
  "Simpson_points (Quadrature_init func interval Method_left) s =
     Inr (map (\<lambda>p. \<lparr>Point_x = Partition_start p,
                      Point_y = AnnotatedFunction_func func (Partition_start p)\<rparr>)
            (Interval_partitions interval)
          @ [\<lparr>Point_x = Interval_end interval,
               Point_y = AnnotatedFunction_func func (Interval_end interval)\<rparr>], s)"
  by (simp add: Simpson_points_def Quadrature_points_left Let_def) (simp add: Quadrature_init_def)

lemma Trapezoid_points_left:
  "Trapezoid_points (Quadrature_init func interval Method_left) s =
     Inr (map (\<lambda>p. \<lparr>Point_x = Partition_start p,
                      Point_y = AnnotatedFunction_func func (Partition_start p)\<rparr>)
            (Interval_partitions interval)
          @ [\<lparr>Point_x = Interval_end interval,
               Point_y = AnnotatedFunction_func func (Interval_end interval)\<rparr>], s)"
  by (simp add: Trapezoid_points_def Quadrature_points_left Let_def) (simp add: Quadrature_init_def)

lemma getitem_first: "xs \<noteq> [] \<Longrightarrow> getitem xs 0 = Inr (xs ! 0)"
  by (simp add: getitem_def)

lemma getitem_last: "xs \<noteq> [] \<Longrightarrow> getitem xs (- 1) = Inr (xs ! (length xs - 1))"
  by (cases xs) (auto simp: getitem_def nat_diff_distrib)

lemma slice_bound_simps:
  "slice_bound (Suc n) (- 1) = n"
  "slice_bound (Suc n) 1 = 1"
  "slice_bound (Suc n) 2 = min (Suc n) 2"
  by (simp_all add: slice_bound_def)

lemma getslice_odd:
  "length xs = Suc n \<Longrightarrow> getslice xs 1 (- 1) 2 = map (\<lambda>k. xs ! (2 * k + 1)) [0 ..< n div 2]"
proof -
  assume len: "length xs = Suc n"
  have "(n - 1 + 2 - 1) div 2 = n div 2" by (cases n) simp_all
  then show ?thesis
    by (simp add: getslice_def len slice_bound_simps mult.commute)
qed

lemma getslice_even:
  "length xs = Suc n \<Longrightarrow>
   getslice xs 2 (- 1) 2 = map (\<lambda>k. xs ! (2 * k + 2)) [0 ..< (n - 1) div 2]"
proof -
  assume len: "length xs = Suc n"
  have "(n - min (Suc n) 2 + 2 - 1) div 2 = (n - 1) div 2" by arith
  moreover have "0 < (n - 1) div 2 \<Longrightarrow> min (Suc n) 2 = 2" by arith
  ultimately show ?thesis
    by (auto simp add: getslice_def len slice_bound_simps mult.commute)
qed

lemma sum_odd_indices:
  fixes g :: "nat \<Rightarrow> real"
  assumes "even n"
  shows "(\<Sum>k<n div 2. g (2 * k + 1)) = (\<Sum>i | i < n \<and> odd i. g i)"
proof (rule sum.reindex_bij_witness [where i = "\<lambda>i. i div 2" and j = "\<lambda>k. 2 * k + 1"])
  fix b assume "b \<in> {i. i < n \<and> odd i}"
  then have b: "b < n" "odd b" by simp_all
  show "2 * (b div 2) + 1 = b" using b by presburger
  have "b div 2 < n div 2" using b assms by presburger
  then show "b div 2 \<in> {..<n div 2}" by simp
next
  fix a assume "a \<in> {..<n div 2}"
  then have a: "a < n div 2" by simp
  show "(2 * a + 1) div 2 = a" by simp
  have "2 * a + 1 < n" using a assms by presburger
  then show "2 * a + 1 \<in> {i. i < n \<and> odd i}" by simp
  show "g (2 * a + 1) = g (2 * a + 1)" ..
qed

lemma sum_even_interior_indices:
  fixes g :: "nat \<Rightarrow> real"
  assumes "even n"
  shows "(\<Sum>k<(n - 1) div 2. g (2 * k + 2)) = (\<Sum>i | 0 < i \<and> i < n \<and> even i. g i)"
proof (rule sum.reindex_bij_witness [where i = "\<lambda>i. i div 2 - 1" and j = "\<lambda>k. 2 * k + 2"])
  fix b assume "b \<in> {i. 0 < i \<and> i < n \<and> even i}"
  then have b: "0 < b" "b < n" "even b" by simp_all
  show "2 * (b div 2 - 1) + 2 = b" using b by presburger
  have "b div 2 - 1 < (n - 1) div 2" using b assms by presburger
  then show "b div 2 - 1 \<in> {..<(n - 1) div 2}" by simp
next
  fix a assume "a \<in> {..<(n - 1) div 2}"
  then have a: "a < (n - 1) div 2" by simp
  show "(2 * a + 2) div 2 - 1 = a" by simp
  have "2 * a + 2 < n" using a assms by presburger
  then show "2 * a + 2 \<in> {i. 0 < i \<and> i < n \<and> even i}" by simp
  show "g (2 * a + 2) = g (2 * a + 2)" ..
qed




lemma Quadrature_points_right:
  "Quadrature_points (Quadrature_init func interval Method_right) s =
     Inr (map (\<lambda>p. \<lparr>Point_x = Partition_end p,
                      Point_y = AnnotatedFunction_func func (Partition_end p)\<rparr>)
            (Interval_partitions interval), s)"
  by (simp add: Quadrature_points_def Quadrature_init_def points_comprehension_pure)

lemma Quadrature_points_midpoint:
  "Quadrature_points (Quadrature_init func interval Method_midpoint) s =
     Inr (map (\<lambda>p. \<lparr>Point_x = (Partition_start p + Partition_end p) / 2,
                      Point_y = AnnotatedFunction_func func
                                  ((Partition_start p + Partition_end p) / 2)\<rparr>)
            (Interval_partitions interval), s)"
  by (simp add: Quadrature_points_def Quadrature_init_def points_comprehension_pure)

lemma Quadrature_points_deterministic:
  assumes "method = Method_left \<or> method = Method_right \<or> method = Method_midpoint"
  shows "\<exists>points. length points = length (Interval_partitions interval)
           \<and> (\<forall>s. Quadrature_points (Quadrature_init func interval method) s = Inr (points, s))"
  using assms
  by (elim disjE)
     (simp_all add: Quadrature_points_left Quadrature_points_right Quadrature_points_midpoint)

lemma round_double_pow2: "- 1022 \<le> k \<Longrightarrow> round_double (2 powi k) = 2 powi k"
  by (rule round_double_representable [where m = "2 ^ 52" and e = "k - 52"])
     (simp_all add: power_int_diff)

lemma round_double_2_600 [simp]: "round_double (2 ^ 600) = 2 ^ 600"
  using round_double_pow2 [of 600] by simp

lemma round_double_2_1200: "round_double ((2 ^ 600)\<^sup>2) = 2 ^ 1200"
  using round_double_pow2 [of 1200] by simp

lemma round_double_a: "round_double (1715871458028159 / 2 ^ 60) = 1715871458028159 / 2 ^ 60"
  by (rule round_double_representable [where m = 6863485832112636 and e = "- 62"]) simp_all

lemma round_double_b: "round_double (4503599627370497 / 2 ^ 63) = 4503599627370497 / 2 ^ 63"
  by (rule round_double_representable [where m = 4503599627370497 and e = "- 63"]) simp_all

lemma round_double_a_minus_b:
  "round_double (1715871458028159 / 2 ^ 60 - 4503599627370497 / 2 ^ 63)
     = 1152921504606847 / 2 ^ 60"
  by (subst round_double_eval [where k = "- 10"]) (simp_all add: round_even_def Let_def)

lemma all_lengths_close_iff:
  "ps \<noteq> [] \<longrightarrow> Interval_partitions interval \<noteq> [] \<Longrightarrow>
   all_lengths_close interval ps =
     Inr (\<forall>p\<in>set ps.
            float_less (float_sub (Partition_length (Interval_partitions interval ! 0))
                          (Partition_length p))
              (round_double (1 / 10 ^ 3)))"
  by (induction ps) (auto simp: Interval_getitem_def getitem_def)

lemma all_lengths_close_partitions:
  "all_lengths_close interval (Interval_partitions interval) =
     Inr (\<forall>p\<in>set (Interval_partitions interval).
            float_less (float_sub (Partition_length (Interval_partitions interval ! 0))
                          (Partition_length p))
              (round_double (1 / 10 ^ 3)))"
  by (rule all_lengths_close_iff) simp

lemma Simpson_init_iff:
  "Simpson_init func interval = Inr self \<longleftrightarrow>
     even (length (Interval_partitions interval))
     \<and> (\<forall>p\<in>set (Interval_partitions interval).
          float_less (float_sub (Partition_length (Interval_partitions interval ! 0))
                        (Partition_length p))
            (round_double (1 / 10 ^ 3)))
     \<and> self = Quadrature_init func interval Method_left"
proof (cases "even (length (Interval_partitions interval))")
  case True
  then have "length (Interval_partitions interval) mod 2 = 0" by presburger
  then show ?thesis
    unfolding Simpson_init_def all_lengths_close_partitions using True by (simp add: eq_commute)
next
  case False
  then have "length (Interval_partitions interval) mod 2 \<noteq> 0" by presburger
  then show ?thesis
    unfolding Simpson_init_def using False by simp
qed

lemma float_less_sub_small:
  "\<bar>a\<bar> \<le> 2 ^ 601 \<Longrightarrow> \<bar>b\<bar> \<le> 2 ^ 601 \<Longrightarrow>
   float_less (float_sub a b) c \<longleftrightarrow> round_double (a - b) < c"
  by (simp add: float_sub_def)

lemma round_double_milli_num:
  "round_double (1 / 1000) = 1152921504606847 / 1152921504606846976"
  using round_double_milli by simp

lemma round_double_a_num:
  "round_double (1715871458028159 / 1152921504606846976)
     = 1715871458028159 / 1152921504606846976"
  using round_double_a by simp

lemma round_double_b_num:
  "round_double (4503599627370497 / 9223372036854775808)
     = 4503599627370497 / 9223372036854775808"
  using round_double_b by simp

lemma round_double_a_minus_b_num:
  "round_double (9223372036854775 / 9223372036854775808)
     = 1152921504606847 / 1152921504606846976"
  using round_double_a_minus_b by simp

lemmas float_evals =
  round_double_milli_num round_double_a_num round_double_b_num round_double_a_minus_b_num
  round_double_2_600 [simplified] round_double_2_1200 [simplified]

lemma Simpson_init_0_2_2:
  "Simpson_init func interval_0_2_2 = Inr (Quadrature_init func interval_0_2_2 Method_left)"
  by (simp add: Simpson_init_iff)
     (simp add: interval_0_2_2_def Partition_length_def float_less_sub_small float_evals)

lemma Simpson_init_0_1_3:
  "Simpson_init func interval_0_1_3 = Inr (Quadrature_init func interval_0_1_3 Method_left)"
  by (simp add: Simpson_init_iff)
     (simp add: interval_0_1_3_def Partition_length_def float_less_sub_small float_evals)


lemma Simpson_init_boundary:
  "Simpson_init func interval_boundary = Inl (ValueError ''All partition lengths must be the same.'')"
  unfolding Simpson_init_def all_lengths_close_partitions
  by (simp add: interval_boundary_def Partition_length_def float_less_sub_small float_evals)

lemma fold_weighted:
  "fold (\<lambda>k area. area + c * g k) [0 ..< m] a = a + c * (\<Sum>k<m. g k)" for a c :: real
  by (induction m) (simp_all add: algebra_simps)

lemma Simpson_calc_with_left:
  fixes func :: AnnotatedFunction and interval :: Interval
  assumes ne: "Interval_partitions interval \<noteq> []"
  defines "points \<equiv>
     map (\<lambda>p. \<lparr>Point_x = Partition_start p,
                  Point_y = AnnotatedFunction_func func (Partition_start p)\<rparr>)
       (Interval_partitions interval)
     @ [\<lparr>Point_x = Interval_end interval,
          Point_y = AnnotatedFunction_func func (Interval_end interval)\<rparr>]"
  defines "n \<equiv> length (Interval_partitions interval)"
  shows "Simpson_calc_with fadd fmul fdiv (Quadrature_init func interval Method_left) s =
           Inr (fdiv
                  (fmul
                     (fold (\<lambda>k area. fadd area (fmul 2 (Point_y (points ! (2 * k + 2)))))
                        [0 ..< (n - 1) div 2]
                        (fold (\<lambda>k area. fadd area (fmul 4 (Point_y (points ! (2 * k + 1)))))
                           [0 ..< n div 2]
                           (fadd (Point_y (points ! 0)) (Point_y (points ! n)))))
                     (Partition_length (Interval_partitions interval ! 0)))
                  3, s)"
proof -
  have pts: "\<And>t. Simpson_points (Quadrature_init func interval Method_left) t = Inr (points, t)"
    unfolding points_def by (rule Simpson_points_left)
  have len: "length points = Suc n" by (simp add: points_def n_def)
  then have "points \<noteq> []" by auto
  then have g0: "getitem points 0 = Inr (points ! 0)"
    and gn: "getitem points (- 1) = Inr (points ! n)"
    using len by (simp_all add: getitem_first getitem_last)
  have first: "Interval_getitem (Quadrature_interval (Quadrature_init func interval Method_left)) 0
                 = Inr (Interval_partitions interval ! 0)"
    using ne by (simp add: Interval_getitem_def getitem_first Quadrature_init_def)
  show ?thesis
    unfolding Simpson_calc_with_def
    by (simp add: pts g0 gn first getslice_odd [OF len] getslice_even [OF len] fold_map comp_def)
qed

lemma Simpson_calc_left:
  fixes func :: AnnotatedFunction and interval :: Interval
  assumes ne: "Interval_partitions interval \<noteq> []"
  defines "points \<equiv>
     map (\<lambda>p. \<lparr>Point_x = Partition_start p,
                  Point_y = AnnotatedFunction_func func (Partition_start p)\<rparr>)
       (Interval_partitions interval)
     @ [\<lparr>Point_x = Interval_end interval,
          Point_y = AnnotatedFunction_func func (Interval_end interval)\<rparr>]"
  defines "n \<equiv> length (Interval_partitions interval)"
  shows "Simpson_calc (Quadrature_init func interval Method_left) s =
           Inr ((Point_y (points ! 0) + Point_y (points ! n)
                 + 4 * (\<Sum>k<n div 2. Point_y (points ! (2 * k + 1)))
                 + 2 * (\<Sum>k<(n - 1) div 2. Point_y (points ! (2 * k + 2))))
                * Partition_length (Interval_partitions interval ! 0) / 3, s)"
  unfolding Simpson_calc_def Simpson_calc_with_left [OF ne] points_def [symmetric]
    n_def [symmetric] fold_weighted
  by simp






lemma Simpson_calc_left_indexed:
  fixes func :: AnnotatedFunction and interval :: Interval
  assumes ne: "Interval_partitions interval \<noteq> []"
    and ev: "even (length (Interval_partitions interval))"
  defines "points \<equiv>
     map (\<lambda>p. \<lparr>Point_x = Partition_start p,
                  Point_y = AnnotatedFunction_func func (Partition_start p)\<rparr>)
       (Interval_partitions interval)
     @ [\<lparr>Point_x = Interval_end interval,
          Point_y = AnnotatedFunction_func func (Interval_end interval)\<rparr>]"
  defines "n \<equiv> length (Interval_partitions interval)"
  shows "Simpson_calc (Quadrature_init func interval Method_left) s =
           Inr (Partition_length (Interval_partitions interval ! 0) / 3
                * (Point_y (points ! 0) + Point_y (points ! n)
                   + 4 * (\<Sum>i | i < n \<and> odd i. Point_y (points ! i))
                   + 2 * (\<Sum>i | 0 < i \<and> i < n \<and> even i. Point_y (points ! i))), s)"
proof -
  have o: "(\<Sum>k<n div 2. Point_y (points ! (2 * k + 1)))
             = (\<Sum>i | i < n \<and> odd i. Point_y (points ! i))"
    using ev unfolding n_def by (rule sum_odd_indices)
  have e: "(\<Sum>k<(n - 1) div 2. Point_y (points ! (2 * k + 2)))
             = (\<Sum>i | 0 < i \<and> i < n \<and> even i. Point_y (points ! i))"
    using ev unfolding n_def by (rule sum_even_interior_indices)
  show ?thesis
    unfolding Simpson_calc_left [OF ne, of func s] points_def [symmetric] n_def [symmetric] o e
    by simp
qed




lemma round_double_milli_pos: "0 < round_double (1 / 10 ^ 3)"
  unfolding round_double_milli by simp

lemma float_less_sub_longer:
  assumes "\<not> is_inf a" "a \<le> b"
  shows "float_less (float_sub a b) (round_double (1 / 10 ^ 3))"
proof (cases "is_inf b")
  case True
  from assms(1) have "- (2 ^ 1024) < a" by (simp add: is_inf_def abs_le_iff not_le)
  with assms(2) True have "0 < b" by (auto simp: is_inf_def abs_le_iff)
  with round_double_milli_pos have "- b < round_double (1 / 10 ^ 3)" by linarith
  with assms(1) True show ?thesis by (simp add: float_sub_def)
next
  case False
  from assms(2) have "round_double (a - b) \<le> 0" by (intro round_double_nonpos) simp
  with round_double_milli_pos have "round_double (a - b) < round_double (1 / 10 ^ 3)" by linarith
  with assms(1) False show ?thesis by (simp add: float_sub_def)
qed

subsection \<open>Riemann sums\<close>

text \<open>
  C2. \<^verbatim>\<open>Riemann.calc\<close> returns the sum, over all partitions, of the partition's length
  times the \<open>y\<close> of the Point that the configured Method chose for that partition. If
  reading \<^verbatim>\<open>points\<close> raises, \<^verbatim>\<open>calc\<close> raises the same error; if it returns, there
  is one Point per partition, the \<open>i\<close>-th Point is what \<^verbatim>\<open>choose\<close> returned on the
  \<open>i\<close>-th partition, and \<^verbatim>\<open>calc\<close> returns the sum (with the state of the random
  source that \<^verbatim>\<open>points\<close> left). On \<open>f(x) = x\<close> over \<open>[0, 2]\<close> in two partitions the
  Left method gives 1 and the Right method gives 3.
\<close>

theorem Riemann_calc_sum:
  "(\<forall>e. Quadrature_points self s = Inl e \<longrightarrow> Riemann_calc self s = Inl e)
   \<and> (\<forall>points s'. Quadrature_points self s = Inr (points, s') \<longrightarrow>
        length points = length (Interval_partitions (Quadrature_interval self))
        \<and> (\<forall>i<length points. \<exists>t t'.
              Method_choose (Quadrature_method self) (AnnotatedFunction_func (Quadrature_func self))
                (Interval_partitions (Quadrature_interval self) ! i) t = Inr (points ! i, t'))
        \<and> Riemann_calc self s =
            Inr (\<Sum>i<length (Interval_partitions (Quadrature_interval self)).
                   Partition_length (Interval_partitions (Quadrature_interval self) ! i)
                     * Point_y (points ! i), s'))
   \<and> Interval_init 0 2 2 = Inr interval_0_2_2
   \<and> Riemann_calc (Riemann_init f_x interval_0_2_2 Method_left) s = Inr (1, s)
   \<and> Riemann_calc (Riemann_init f_x interval_0_2_2 Method_right) s = Inr (3, s)"
proof (intro conjI allI impI)
  fix e assume "Quadrature_points self s = Inl e"
  then show "Riemann_calc self s = Inl e" by (simp add: Riemann_calc_def)
next
  fix points s' assume p: "Quadrature_points self s = Inr (points, s')"
  then show len: "length points = length (Interval_partitions (Quadrature_interval self))"
    unfolding Quadrature_points_def by (rule points_comprehension_length)
  show "Riemann_calc self s =
            Inr (\<Sum>i<length (Interval_partitions (Quadrature_interval self)).
                   Partition_length (Interval_partitions (Quadrature_interval self) ! i)
                     * Point_y (points ! i), s')"
    using p by (rule Riemann_calc_Inr)
  fix i assume "i < length points"
  with len have "i < length (Interval_partitions (Quadrature_interval self))" by simp
  with p show "\<exists>t t'.
              Method_choose (Quadrature_method self) (AnnotatedFunction_func (Quadrature_func self))
                (Interval_partitions (Quadrature_interval self) ! i) t = Inr (points ! i, t')"
    unfolding Quadrature_points_def by (rule points_comprehension_chosen)
qed (rule Interval_init_0_2_2 Riemann_calc_left_example Riemann_calc_right_example)+

theorem Riemann_calc_sum_witness:
  "Quadrature_points (Riemann_init f_x interval_0_2_2 Method_midpoint) () =
     Inr ([\<lparr>Point_x = 1 / 2, Point_y = 1 / 2\<rparr>, \<lparr>Point_x = 3 / 2, Point_y = 3 / 2\<rparr>], ())
   \<and> Riemann_calc (Riemann_init f_x interval_0_2_2 Method_midpoint) () = Inr (2, ())"
proof -
  have p: "Quadrature_points (Riemann_init f_x interval_0_2_2 Method_midpoint) () =
     Inr ([\<lparr>Point_x = 1 / 2, Point_y = 1 / 2\<rparr>, \<lparr>Point_x = 3 / 2, Point_y = 3 / 2\<rparr>], ())"
    by (simp add: Riemann_init_def Quadrature_init_def Quadrature_points_def f_x_def
        interval_0_2_2_def)
  from Riemann_calc_sum [of "Riemann_init f_x interval_0_2_2 Method_midpoint" "()"] p
  have "Riemann_calc (Riemann_init f_x interval_0_2_2 Method_midpoint) () =
          Inr (\<Sum>i<length (Interval_partitions (Quadrature_interval
                    (Riemann_init f_x interval_0_2_2 Method_midpoint :: unit Quadrature))).
                 Partition_length (Interval_partitions (Quadrature_interval
                    (Riemann_init f_x interval_0_2_2 Method_midpoint :: unit Quadrature)) ! i)
                   * Point_y ([\<lparr>Point_x = 1 / 2, Point_y = 1 / 2\<rparr>,
                               \<lparr>Point_x = 3 / 2, Point_y = 3 / 2\<rparr>] ! i), ())"
    by blast
  then have "Riemann_calc (Riemann_init f_x interval_0_2_2 Method_midpoint) () = Inr (2, ())"
    by (simp add: Riemann_init_def Quadrature_init_def interval_0_2_2_def Partition_length_def
        lessThan_Suc numeral_2_eq_2)
  with p show ?thesis by simp
qed

subsection \<open>The trapezoid rule\<close>

text \<open>
  C3. \<^verbatim>\<open>Trapezoid.calc\<close> returns the sum, over all partitions, of
  \<open>(f(partition.start) + f(partition.end)) / 2 * partition.length\<close>. Nothing is assumed
  about the lengths of the partitions: the equation holds for every instance. On
  \<open>f(x) = x\<close> over \<open>[0, 2]\<close> in two partitions the result is 2, and over the
  partitions \<open>[0, 1]\<close>, \<open>[1, 3]\<close> of unequal length it is \<open>9 / 2\<close>.
\<close>

theorem Trapezoid_calc_sum:
  "Trapezoid_calc self s =
     Inr (\<Sum>partition\<leftarrow>Interval_partitions (Quadrature_interval self).
            (AnnotatedFunction_func (Quadrature_func self) (Partition_start partition)
             + AnnotatedFunction_func (Quadrature_func self) (Partition_end partition)) / 2
            * Partition_length partition, s)
   \<and> Interval_init 0 2 2 = Inr interval_0_2_2
   \<and> Trapezoid_calc (Trapezoid_init f_x interval_0_2_2) s = Inr (2, s)
   \<and> Trapezoid_calc (Trapezoid_init f_x interval_0_1_3) s = Inr (9 / 2, s)"
proof (intro conjI)
  show "Trapezoid_calc self s =
     Inr (\<Sum>partition\<leftarrow>Interval_partitions (Quadrature_interval self).
            (AnnotatedFunction_func (Quadrature_func self) (Partition_start partition)
             + AnnotatedFunction_func (Quadrature_func self) (Partition_end partition)) / 2
            * Partition_length partition, s)"
    unfolding Trapezoid_calc_def fold_trapezoid by simp
  show "Interval_init 0 2 2 = Inr interval_0_2_2" by (rule Interval_init_0_2_2)
  show "Trapezoid_calc (Trapezoid_init f_x interval_0_2_2) s = Inr (2, s)"
    by (simp add: Trapezoid_calc_def Trapezoid_init_def Quadrature_init_def f_x_def
        interval_0_2_2_def Partition_length_def)
  show "Trapezoid_calc (Trapezoid_init f_x interval_0_1_3) s = Inr (9 / 2, s)"
    by (simp add: Trapezoid_calc_def Trapezoid_init_def Quadrature_init_def f_x_def
        interval_0_1_3_def Partition_length_def)
qed

subsection \<open>Construction of a Simpson instance\<close>

text \<open>
  C4. On an interval with an odd number of partitions \<^verbatim>\<open>Simpson.__init__\<close> raises
  \<^verbatim>\<open>ValueError\<close> (the specification's \<^verbatim>\<open>InvalidArgument\<close>) for every function;
  the result is the error and no instance. The message names the precondition: an
  even number of partitions. So it is for \<open>[0, 3]\<close> in three partitions.
\<close>

theorem Simpson_init_odd:
  "(odd (length (Interval_partitions interval)) \<longrightarrow>
      (Simpson_init func interval :: error + 's Quadrature) =
        Inl (ValueError ''Simson's rule only works with an even number of partitions.''))
   \<and> Interval_init 0 3 3 = Inr interval_0_3_3
   \<and> (Simpson_init func interval_0_3_3 :: error + 's Quadrature) =
        Inl (ValueError ''Simson's rule only works with an even number of partitions.'')"
proof (intro conjI impI)
  assume "odd (length (Interval_partitions interval))"
  then have "length (Interval_partitions interval) mod 2 \<noteq> 0" by presburger
  then show "(Simpson_init func interval :: error + 's Quadrature) =
        Inl (ValueError ''Simson's rule only works with an even number of partitions.'')"
    unfolding Simpson_init_def by simp
next
  show "Interval_init 0 3 3 = Inr interval_0_3_3" by (rule Interval_init_0_3_3)
next
  show "(Simpson_init func interval_0_3_3 :: error + 's Quadrature) =
        Inl (ValueError ''Simson's rule only works with an even number of partitions.'')"
    unfolding Simpson_init_def by (simp add: interval_0_3_3_def)
qed

theorem Simpson_init_odd_witness:
  "odd (length (Interval_partitions
          \<lparr>Interval_start = 0, Interval_end = 1,
           Interval_partitions = [\<lparr>Partition_start = 0, Partition_end = 1\<rparr>]\<rparr>))
   \<and> (Simpson_init f_x2
          \<lparr>Interval_start = 0, Interval_end = 1,
           Interval_partitions = [\<lparr>Partition_start = 0, Partition_end = 1\<rparr>]\<rparr>
        :: error + unit Quadrature) =
        Inl (ValueError ''Simson's rule only works with an even number of partitions.'')"
  using Simpson_init_odd [of "\<lparr>Interval_start = 0, Interval_end = 1,
           Interval_partitions = [\<lparr>Partition_start = 0, Partition_end = 1\<rparr>]\<rparr>" f_x2,
           where ?'s = unit]
  by simp

text \<open>
  C5. The specification says that construction fails when some partition's length differs
  from the
  first one's by more than \<open>1e-3\<close> in either direction. The check of
  \<^verbatim>\<open>Simpson.__init__\<close> subtracts without taking the absolute value: on the valid
  interval with the partitions \<open>[0, 1]\<close> and \<open>[1, 3]\<close>, whose second partition is longer
  than the first by 1, the construction returns an instance.
\<close>

theorem Simpson_init_accepts_longer:
  "Interval_valid interval_0_1_3
   \<and> even (length (Interval_partitions interval_0_1_3))
   \<and> Partition_length (Interval_partitions interval_0_1_3 ! 1)
       - Partition_length (Interval_partitions interval_0_1_3 ! 0) = 1
   \<and> (Simpson_init f_x2 interval_0_1_3 :: error + unit Quadrature) =
       Inr (Quadrature_init f_x2 interval_0_1_3 Method_left)"
proof (intro conjI)
  show "Interval_valid interval_0_1_3" by (rule Interval_valid_examples)
  show "even (length (Interval_partitions interval_0_1_3))" by (simp add: interval_0_1_3_def)
  show "Partition_length (Interval_partitions interval_0_1_3 ! 1)
       - Partition_length (Interval_partitions interval_0_1_3 ! 0) = 1"
    by (simp add: interval_0_1_3_def Partition_length_def)
  show "(Simpson_init f_x2 interval_0_1_3 :: error + unit Quadrature) =
       Inr (Quadrature_init f_x2 interval_0_1_3 Method_left)"
    by (rule Simpson_init_0_1_3)
qed

text \<open>
  C6. The specification says that construction succeeds for every interval with an even
  number of partitions in which every partition's length is greater than the first
  partition's length minus \<open>1e-3\<close>. The check of \<^verbatim>\<open>Simpson.__init__\<close> compares the float
  \<^verbatim>\<open>interval[0].length - i.length\<close> with the float \<^verbatim>\<open>10**-3\<close>. Take the valid interval with
  the partitions \<open>[-a, 0]\<close> and \<open>[0, b]\<close>, where \<open>a = 1715871458028159 / 2^60\<close> (about
  \<open>0.00148828125\<close>) and \<open>b = 4503599627370497 / 2^63\<close> (about \<open>0.00048828125\<close>) are
  binary64 numbers. \<open>b\<close> is greater than \<open>a - 1e-3\<close>, for the real number
  \<open>1 / 1000\<close> and for the float nearest to it alike; but the difference \<open>a - b\<close> rounds
  to that very float, so \<^verbatim>\<open><\<close> does not hold and construction raises \<^verbatim>\<open>ValueError\<close>.
\<close>

theorem Simpson_init_boundary_counterexample:
  "Interval_valid interval_boundary
   \<and> even (length (Interval_partitions interval_boundary))
   \<and> Partition_length (Interval_partitions interval_boundary ! 0) = 1715871458028159 / 2 ^ 60
   \<and> Partition_length (Interval_partitions interval_boundary ! 1) = 4503599627370497 / 2 ^ 63
   \<and> Partition_length (Interval_partitions interval_boundary ! 0) - 1 / 10 ^ 3
       < Partition_length (Interval_partitions interval_boundary ! 0)
   \<and> Partition_length (Interval_partitions interval_boundary ! 0) - 1 / 10 ^ 3
       < Partition_length (Interval_partitions interval_boundary ! 1)
   \<and> Partition_length (Interval_partitions interval_boundary ! 0) - round_double (1 / 10 ^ 3)
       < Partition_length (Interval_partitions interval_boundary ! 1)
   \<and> (Simpson_init f_x2 interval_boundary :: error + unit Quadrature) =
       Inl (ValueError ''All partition lengths must be the same.'')"
proof -
  have l0: "Partition_length (Interval_partitions interval_boundary ! 0)
              = 1715871458028159 / 2 ^ 60"
    and l1: "Partition_length (Interval_partitions interval_boundary ! 1)
              = 4503599627370497 / 2 ^ 63"
    by (simp_all add: interval_boundary_def Partition_length_def float_evals)
  have "Interval_valid interval_boundary"
    by (rule Interval_valid_examples)
  moreover have "even (length (Interval_partitions interval_boundary))"
    by (simp add: interval_boundary_def)
  moreover have "Partition_length (Interval_partitions interval_boundary ! 0) - 1 / 10 ^ 3
       < Partition_length (Interval_partitions interval_boundary ! 0)"
    by simp
  moreover have "Partition_length (Interval_partitions interval_boundary ! 0) - 1 / 10 ^ 3
       < Partition_length (Interval_partitions interval_boundary ! 1)"
    unfolding l0 l1 by simp
  moreover have "Partition_length (Interval_partitions interval_boundary ! 0)
       - round_double (1 / 10 ^ 3)
       < Partition_length (Interval_partitions interval_boundary ! 1)"
    unfolding l0 l1 round_double_milli by simp
  moreover have "(Simpson_init f_x2 interval_boundary :: error + unit Quadrature) =
       Inl (ValueError ''All partition lengths must be the same.'')"
    by (rule Simpson_init_boundary)
  ultimately show ?thesis using l0 l1 by blast
qed

text \<open>
  C6, as amended. Construction succeeds exactly when the number of partitions is even and,
  for every partition, the float difference of the first partition's length and that
  partition's length is less than the float \<^verbatim>\<open>10**-3\<close>; the instance then holds the
  function, the interval and the Left method. The check is one-sided: when the number of
  partitions is even, the first length is finite and no partition is shorter than the
  first, construction succeeds, by however much the other partitions are longer. So it
  is for the interval with the partitions \<open>[0, 1]\<close> and \<open>[1, 3]\<close>. On every instance over
  a nonempty interval \<^verbatim>\<open>calc\<close> multiplies the weighted sum by the first partition's length
  and divides by 3; on \<open>f(x) = x^2\<close> over that interval it returns \<open>13 * 1 / 3\<close>.
\<close>

theorem Simpson_init_one_sided:
  "(Simpson_init func interval = Inr self \<longleftrightarrow>
      even (length (Interval_partitions interval))
      \<and> (\<forall>p\<in>set (Interval_partitions interval).
           float_less (float_sub (Partition_length (Interval_partitions interval ! 0))
                         (Partition_length p))
             (round_double (1 / 10 ^ 3)))
      \<and> self = Quadrature_init func interval Method_left)
   \<and> (even (length (Interval_partitions interval))
        \<and> \<not> is_inf (Partition_length (Interval_partitions interval ! 0))
        \<and> (\<forall>p\<in>set (Interval_partitions interval).
             Partition_length (Interval_partitions interval ! 0) \<le> Partition_length p)
       \<longrightarrow> Simpson_init func interval = Inr (Quadrature_init func interval Method_left))
   \<and> (Simpson_init func interval = Inr self \<longrightarrow> Interval_partitions interval \<noteq> [] \<longrightarrow>
        (\<exists>points. Simpson_points self s = Inr (points, s)
           \<and> Simpson_calc self s =
               Inr ((Point_y (points ! 0)
                     + Point_y (points ! length (Interval_partitions interval))
                     + 4 * (\<Sum>k<length (Interval_partitions interval) div 2.
                              Point_y (points ! (2 * k + 1)))
                     + 2 * (\<Sum>k<(length (Interval_partitions interval) - 1) div 2.
                              Point_y (points ! (2 * k + 2))))
                    * Partition_length (Interval_partitions interval ! 0) / 3, s)))
   \<and> Interval_valid interval_0_1_3
   \<and> Partition_length (Interval_partitions interval_0_1_3 ! 1)
       = Partition_length (Interval_partitions interval_0_1_3 ! 0) + 1
   \<and> Simpson_init f_x2 interval_0_1_3 = Inr (Quadrature_init f_x2 interval_0_1_3 Method_left)
   \<and> Simpson_calc (Quadrature_init f_x2 interval_0_1_3 Method_left) s = Inr (13 * 1 / 3, s)"
proof (intro conjI impI)
  show "Simpson_init func interval = Inr self \<longleftrightarrow>
      even (length (Interval_partitions interval))
      \<and> (\<forall>p\<in>set (Interval_partitions interval).
           float_less (float_sub (Partition_length (Interval_partitions interval ! 0))
                         (Partition_length p))
             (round_double (1 / 10 ^ 3)))
      \<and> self = Quadrature_init func interval Method_left"
    by (rule Simpson_init_iff)
next
  assume a: "even (length (Interval_partitions interval))
        \<and> \<not> is_inf (Partition_length (Interval_partitions interval ! 0))
        \<and> (\<forall>p\<in>set (Interval_partitions interval).
             Partition_length (Interval_partitions interval ! 0) \<le> Partition_length p)"
  then have "\<forall>p\<in>set (Interval_partitions interval).
           float_less (float_sub (Partition_length (Interval_partitions interval ! 0))
                         (Partition_length p))
             (round_double (1 / 10 ^ 3))"
    by (blast intro: float_less_sub_longer)
  with a show "Simpson_init func interval = Inr (Quadrature_init func interval Method_left)"
    by (simp add: Simpson_init_iff)
next
  assume init: "Simpson_init func interval = Inr self"
    and ne: "Interval_partitions interval \<noteq> []"
  from init have self: "self = Quadrature_init func interval Method_left"
    by (simp add: Simpson_init_iff)
  show "\<exists>points. Simpson_points self s = Inr (points, s)
           \<and> Simpson_calc self s =
               Inr ((Point_y (points ! 0)
                     + Point_y (points ! length (Interval_partitions interval))
                     + 4 * (\<Sum>k<length (Interval_partitions interval) div 2.
                              Point_y (points ! (2 * k + 1)))
                     + 2 * (\<Sum>k<(length (Interval_partitions interval) - 1) div 2.
                              Point_y (points ! (2 * k + 2))))
                    * Partition_length (Interval_partitions interval ! 0) / 3, s)"
    unfolding self
    by (intro exI conjI, rule Simpson_points_left, rule Simpson_calc_left [OF ne])
next
  show "Interval_valid interval_0_1_3" by (rule Interval_valid_examples)
next
  show "Partition_length (Interval_partitions interval_0_1_3 ! 1)
       = Partition_length (Interval_partitions interval_0_1_3 ! 0) + 1"
    by (simp add: interval_0_1_3_def Partition_length_def)
next
  show "Simpson_init f_x2 interval_0_1_3 = Inr (Quadrature_init f_x2 interval_0_1_3 Method_left)"
    by (rule Simpson_init_0_1_3)
next
  have ne: "Interval_partitions interval_0_1_3 \<noteq> []" by (simp add: interval_0_1_3_def)
  show "Simpson_calc (Quadrature_init f_x2 interval_0_1_3 Method_left) s = Inr (13 * 1 / 3, s)"
    unfolding Simpson_calc_left [OF ne]
    by (simp add: interval_0_1_3_def f_x2_def Partition_length_def)
qed

theorem Simpson_init_one_sided_witness:
  "even (length (Interval_partitions interval_0_1_3))
   \<and> \<not> is_inf (Partition_length (Interval_partitions interval_0_1_3 ! 0))
   \<and> list_all (\<lambda>p. Partition_length (Interval_partitions interval_0_1_3 ! 0)
                     \<le> Partition_length p) (Interval_partitions interval_0_1_3)
   \<and> Interval_partitions interval_0_1_3 \<noteq> []
   \<and> (Simpson_init f_x2 interval_0_1_3 :: error + unit Quadrature) =
       Inr (Quadrature_init f_x2 interval_0_1_3 Method_left)
   \<and> Simpson_points (Quadrature_init f_x2 interval_0_1_3 Method_left) () =
       Inr ([\<lparr>Point_x = 0, Point_y = 0\<rparr>, \<lparr>Point_x = 1, Point_y = 1\<rparr>,
             \<lparr>Point_x = 3, Point_y = 9\<rparr>], ())
   \<and> Simpson_calc (Quadrature_init f_x2 interval_0_1_3 Method_left) () =
       Inr ((0 + 9 + 4 * 1 + 2 * 0) * 1 / 3, ())"
proof -
  have ev: "even (length (Interval_partitions interval_0_1_3))"
    by (simp add: interval_0_1_3_def)
  have fin: "\<not> is_inf (Partition_length (Interval_partitions interval_0_1_3 ! 0))"
    by (simp add: interval_0_1_3_def Partition_length_def)
  have longer: "\<forall>p\<in>set (Interval_partitions interval_0_1_3).
      Partition_length (Interval_partitions interval_0_1_3 ! 0) \<le> Partition_length p"
    by (simp add: interval_0_1_3_def Partition_length_def)
  have ne: "Interval_partitions interval_0_1_3 \<noteq> []" by (simp add: interval_0_1_3_def)
  have n: "length (Interval_partitions interval_0_1_3) = 2"
    and h: "Partition_length (Interval_partitions interval_0_1_3 ! 0) = 1"
    by (simp_all add: interval_0_1_3_def Partition_length_def)
  have p: "Simpson_points (Quadrature_init f_x2 interval_0_1_3 Method_left) () =
       Inr ([\<lparr>Point_x = 0, Point_y = 0\<rparr>, \<lparr>Point_x = 1, Point_y = 1\<rparr>,
             \<lparr>Point_x = 3, Point_y = 9\<rparr>], ())"
    by (simp add: Simpson_points_left) (simp add: interval_0_1_3_def f_x2_def)
  note inst = Simpson_init_one_sided [of f_x2 interval_0_1_3
      "Quadrature_init f_x2 interval_0_1_3 Method_left :: unit Quadrature" "()"]
  from inst ev fin longer
  have i: "(Simpson_init f_x2 interval_0_1_3 :: error + unit Quadrature) =
       Inr (Quadrature_init f_x2 interval_0_1_3 Method_left)"
    by blast
  with inst ne obtain points where
    "Simpson_points (Quadrature_init f_x2 interval_0_1_3 Method_left) () = Inr (points, ())"
    and c: "Simpson_calc (Quadrature_init f_x2 interval_0_1_3 Method_left) () =
               Inr ((Point_y (points ! 0)
                     + Point_y (points ! length (Interval_partitions interval_0_1_3))
                     + 4 * (\<Sum>k<length (Interval_partitions interval_0_1_3) div 2.
                              Point_y (points ! (2 * k + 1)))
                     + 2 * (\<Sum>k<(length (Interval_partitions interval_0_1_3) - 1) div 2.
                              Point_y (points ! (2 * k + 2))))
                    * Partition_length (Interval_partitions interval_0_1_3 ! 0) / 3, ())"
    by blast
  with p have "points = [\<lparr>Point_x = 0, Point_y = 0\<rparr>, \<lparr>Point_x = 1, Point_y = 1\<rparr>,
             \<lparr>Point_x = 3, Point_y = 9\<rparr>]"
    by simp
  with c have "Simpson_calc (Quadrature_init f_x2 interval_0_1_3 Method_left) () =
       Inr ((0 + 9 + 4 * 1 + 2 * 0) * 1 / 3, ())"
    unfolding n h by simp
  with ev fin longer ne i p show ?thesis by (simp add: list_all_iff)
qed

subsection \<open>The points of an instance\<close>

text \<open>
  C7. Over an interval with \<open>n\<close> partitions, \<^verbatim>\<open>points\<close> of a Trapezoid instance and of
  a Simpson instance has \<open>n + 1\<close> elements: the Point at the left end of each partition,
  then the Point at the end of the interval. \<^verbatim>\<open>points\<close> of a Riemann instance has
  \<open>n\<close> elements whenever it returns, whatever the method; with the Left, Right or
  Midpoint method it does return.
\<close>

theorem points_length:
  "(\<exists>points. Trapezoid_points (Trapezoid_init func interval) s = Inr (points, s)
      \<and> length points = length (Interval_partitions interval) + 1
      \<and> points =
          map (\<lambda>p. \<lparr>Point_x = Partition_start p,
                       Point_y = AnnotatedFunction_func func (Partition_start p)\<rparr>)
            (Interval_partitions interval)
          @ [\<lparr>Point_x = Interval_end interval,
               Point_y = AnnotatedFunction_func func (Interval_end interval)\<rparr>])
   \<and> (\<forall>self. Simpson_init func interval = Inr self \<longrightarrow>
        (\<exists>points. Simpson_points self s = Inr (points, s)
           \<and> length points = length (Interval_partitions interval) + 1
           \<and> points =
               map (\<lambda>p. \<lparr>Point_x = Partition_start p,
                            Point_y = AnnotatedFunction_func func (Partition_start p)\<rparr>)
                 (Interval_partitions interval)
               @ [\<lparr>Point_x = Interval_end interval,
                    Point_y = AnnotatedFunction_func func (Interval_end interval)\<rparr>]))
   \<and> (\<forall>points s'. Quadrature_points (Riemann_init func interval method) s = Inr (points, s')
        \<longrightarrow> length points = length (Interval_partitions interval))
   \<and> (method = Method_left \<or> method = Method_right \<or> method = Method_midpoint \<longrightarrow>
        (\<exists>points. Quadrature_points (Riemann_init func interval method) s = Inr (points, s)
           \<and> length points = length (Interval_partitions interval)))"
proof (intro conjI allI impI)
  show "\<exists>points. Trapezoid_points (Trapezoid_init func interval) s = Inr (points, s)
      \<and> length points = length (Interval_partitions interval) + 1
      \<and> points =
          map (\<lambda>p. \<lparr>Point_x = Partition_start p,
                       Point_y = AnnotatedFunction_func func (Partition_start p)\<rparr>)
            (Interval_partitions interval)
          @ [\<lparr>Point_x = Interval_end interval,
               Point_y = AnnotatedFunction_func func (Interval_end interval)\<rparr>]"
    by (simp add: Trapezoid_init_def Trapezoid_points_left)
next
  fix self :: "'a Quadrature"
  assume "Simpson_init func interval = Inr self"
  then have "self = Quadrature_init func interval Method_left"
    by (simp add: Simpson_init_iff)
  then show "\<exists>points. Simpson_points self s = Inr (points, s)
           \<and> length points = length (Interval_partitions interval) + 1
           \<and> points =
               map (\<lambda>p. \<lparr>Point_x = Partition_start p,
                            Point_y = AnnotatedFunction_func func (Partition_start p)\<rparr>)
                 (Interval_partitions interval)
               @ [\<lparr>Point_x = Interval_end interval,
                    Point_y = AnnotatedFunction_func func (Interval_end interval)\<rparr>]"
    by (simp add: Simpson_points_left)
next
  fix points s'
  assume "Quadrature_points (Riemann_init func interval method) s = Inr (points, s')"
  then show "length points = length (Interval_partitions interval)"
    unfolding Quadrature_points_def Riemann_init_def Quadrature_init_def
    by (auto dest: points_comprehension_length)
next
  assume "method = Method_left \<or> method = Method_right \<or> method = Method_midpoint"
  from Quadrature_points_deterministic [OF this, of interval func]
  show "\<exists>points. Quadrature_points (Riemann_init func interval method) s = Inr (points, s)
           \<and> length points = length (Interval_partitions interval)"
    unfolding Riemann_init_def by auto
qed

theorem points_length_witness:
  "(Simpson_init f_x2 interval_0_2_2 :: error + unit Quadrature) =
     Inr (Quadrature_init f_x2 interval_0_2_2 Method_left)
   \<and> Simpson_points (Quadrature_init f_x2 interval_0_2_2 Method_left) () =
       Inr ([\<lparr>Point_x = 0, Point_y = 0\<rparr>, \<lparr>Point_x = 1, Point_y = 1\<rparr>,
             \<lparr>Point_x = 2, Point_y = 4\<rparr>], ())
   \<and> Quadrature_points (Riemann_init f_x2 interval_0_2_2 Method_right) () =
       Inr ([\<lparr>Point_x = 1, Point_y = 1\<rparr>, \<lparr>Point_x = 2, Point_y = 4\<rparr>], ())
   \<and> length (Interval_partitions interval_0_2_2) = 2"
proof -
  have i: "(Simpson_init f_x2 interval_0_2_2 :: error + unit Quadrature) =
     Inr (Quadrature_init f_x2 interval_0_2_2 Method_left)"
    by (rule Simpson_init_0_2_2)
  have r: "Method_right = Method_left \<or> Method_right = Method_right
             \<or> Method_right = (Method_midpoint :: unit Method)"
    by simp
  from points_length [of f_x2 interval_0_2_2 "()" Method_right] i r
  have "(\<exists>points. Simpson_points (Quadrature_init f_x2 interval_0_2_2 Method_left) () =
            Inr (points, ())
          \<and> length points = length (Interval_partitions interval_0_2_2) + 1
          \<and> points =
               map (\<lambda>p. \<lparr>Point_x = Partition_start p,
                            Point_y = AnnotatedFunction_func f_x2 (Partition_start p)\<rparr>)
                 (Interval_partitions interval_0_2_2)
               @ [\<lparr>Point_x = Interval_end interval_0_2_2,
                    Point_y = AnnotatedFunction_func f_x2 (Interval_end interval_0_2_2)\<rparr>])
        \<and> (\<exists>points. Quadrature_points (Riemann_init f_x2 interval_0_2_2 Method_right) () =
              Inr (points, ())
            \<and> length points = length (Interval_partitions interval_0_2_2))"
    by blast
  then show ?thesis
    using i
    by (simp add: f_x2_def interval_0_2_2_def Riemann_init_def Quadrature_init_def
        Quadrature_points_def)
qed

subsection \<open>Simpson's rule\<close>

text \<open>
  C1. On a Simpson instance over \<open>n\<close> partitions (\<open>n\<close> is even; \<open>h\<close> is the length of the
  first partition, the common length when the lengths are equal), with \<open>y\<^sub>i\<close> the \<open>y\<close> of
  the \<open>i\<close>-th of the \<open>n + 1\<close> points, \<^verbatim>\<open>calc\<close> returns \<open>h / 3\<close> times
  \<open>y\<^sub>0 + y\<^sub>n\<close> plus 4 times the sum of the \<open>y\<^sub>i\<close> with \<open>i\<close> odd plus 2 times the sum of
  the \<open>y\<^sub>i\<close> with \<open>i\<close> even and \<open>0 < i < n\<close>. The weighted sum is accumulated first and
  scaled once, at the end: whatever the operations \<open>fadd\<close>, \<open>fmul\<close> and \<open>fdiv\<close> that
  stand for \<^verbatim>\<open>+\<close>, \<^verbatim>\<open>*\<close> and \<^verbatim>\<open>/\<close> on floats, the result is
  \<open>fdiv (fmul area h) 3\<close>, the code's \<^verbatim>\<open>area*h/3\<close>, where \<open>area\<close> starts as
  \<open>fadd y\<^sub>0 y\<^sub>n\<close>, then receives \<open>fmul 4 y\<^sub>i\<close> for \<open>i = 1, 3, ...\<close> in this order, then
  \<open>fmul 2 y\<^sub>i\<close> for \<open>i = 2, 4, ...\<close>; no term meets \<open>h\<close> before the sum is complete.
  With the exact operations of the reals this is the formula above. On \<open>f(x) = x^2\<close>
  over \<open>[0, 2]\<close> in two partitions the result is \<open>8 / 3\<close>.
\<close>

theorem Simpson_calc_rule:
  "(\<forall>self. Simpson_init func interval = Inr self \<longrightarrow> Interval_partitions interval \<noteq> [] \<longrightarrow>
      (\<exists>points. Simpson_points self s = Inr (points, s)
         \<and> length points = length (Interval_partitions interval) + 1
         \<and> even (length (Interval_partitions interval))
         \<and> (\<forall>fadd fmul fdiv.
              Simpson_calc_with fadd fmul fdiv self s =
                Inr (fdiv
                       (fmul
                          (fold (\<lambda>k area. fadd area (fmul 2 (Point_y (points ! (2 * k + 2)))))
                             [0 ..< (length (Interval_partitions interval) - 1) div 2]
                             (fold (\<lambda>k area. fadd area (fmul 4 (Point_y (points ! (2 * k + 1)))))
                                [0 ..< length (Interval_partitions interval) div 2]
                                (fadd (Point_y (points ! 0))
                                   (Point_y (points ! length (Interval_partitions interval))))))
                          (Partition_length (Interval_partitions interval ! 0)))
                       3, s))
         \<and> Simpson_calc self s = Simpson_calc_with (+) (*) (/) self s
         \<and> Simpson_calc self s =
             Inr (Partition_length (Interval_partitions interval ! 0) / 3
                  * (Point_y (points ! 0)
                     + Point_y (points ! length (Interval_partitions interval))
                     + 4 * (\<Sum>i | i < length (Interval_partitions interval) \<and> odd i.
                              Point_y (points ! i))
                     + 2 * (\<Sum>i | 0 < i \<and> i < length (Interval_partitions interval) \<and> even i.
                              Point_y (points ! i))), s)))
   \<and> Interval_init 0 2 2 = Inr interval_0_2_2
   \<and> Simpson_init f_x2 interval_0_2_2 = Inr (Quadrature_init f_x2 interval_0_2_2 Method_left)
   \<and> Simpson_calc (Quadrature_init f_x2 interval_0_2_2 Method_left) s = Inr (8 / 3, s)"
proof (intro conjI allI impI)
  fix self :: "'a Quadrature"
  assume init: "Simpson_init func interval = Inr self"
    and ne: "Interval_partitions interval \<noteq> []"
  from init have self: "self = Quadrature_init func interval Method_left"
    and ev: "even (length (Interval_partitions interval))"
    by (simp_all add: Simpson_init_iff)
  define points where "points =
     map (\<lambda>p. \<lparr>Point_x = Partition_start p,
                  Point_y = AnnotatedFunction_func func (Partition_start p)\<rparr>)
       (Interval_partitions interval)
     @ [\<lparr>Point_x = Interval_end interval,
          Point_y = AnnotatedFunction_func func (Interval_end interval)\<rparr>]"
  have 1: "Simpson_points self s = Inr (points, s)"
    unfolding self points_def by (rule Simpson_points_left)
  have 2: "length points = length (Interval_partitions interval) + 1"
    by (simp add: points_def)
  have 3: "\<forall>fadd fmul fdiv.
              Simpson_calc_with fadd fmul fdiv self s =
                Inr (fdiv
                       (fmul
                          (fold (\<lambda>k area. fadd area (fmul 2 (Point_y (points ! (2 * k + 2)))))
                             [0 ..< (length (Interval_partitions interval) - 1) div 2]
                             (fold (\<lambda>k area. fadd area (fmul 4 (Point_y (points ! (2 * k + 1)))))
                                [0 ..< length (Interval_partitions interval) div 2]
                                (fadd (Point_y (points ! 0))
                                   (Point_y (points ! length (Interval_partitions interval))))))
                          (Partition_length (Interval_partitions interval ! 0)))
                       3, s)"
    unfolding self points_def by (intro allI) (rule Simpson_calc_with_left [OF ne])
  have 4: "Simpson_calc self s = Simpson_calc_with (+) (*) (/) self s"
    by (rule Simpson_calc_def)
  have 5: "Simpson_calc self s =
             Inr (Partition_length (Interval_partitions interval ! 0) / 3
                  * (Point_y (points ! 0)
                     + Point_y (points ! length (Interval_partitions interval))
                     + 4 * (\<Sum>i | i < length (Interval_partitions interval) \<and> odd i.
                              Point_y (points ! i))
                     + 2 * (\<Sum>i | 0 < i \<and> i < length (Interval_partitions interval) \<and> even i.
                              Point_y (points ! i))), s)"
    unfolding self points_def by (rule Simpson_calc_left_indexed [OF ne ev])
  from 1 2 ev 3 4 5
  show "\<exists>points. Simpson_points self s = Inr (points, s)
         \<and> length points = length (Interval_partitions interval) + 1
         \<and> even (length (Interval_partitions interval))
         \<and> (\<forall>fadd fmul fdiv.
              Simpson_calc_with fadd fmul fdiv self s =
                Inr (fdiv
                       (fmul
                          (fold (\<lambda>k area. fadd area (fmul 2 (Point_y (points ! (2 * k + 2)))))
                             [0 ..< (length (Interval_partitions interval) - 1) div 2]
                             (fold (\<lambda>k area. fadd area (fmul 4 (Point_y (points ! (2 * k + 1)))))
                                [0 ..< length (Interval_partitions interval) div 2]
                                (fadd (Point_y (points ! 0))
                                   (Point_y (points ! length (Interval_partitions interval))))))
                          (Partition_length (Interval_partitions interval ! 0)))
                       3, s))
         \<and> Simpson_calc self s = Simpson_calc_with (+) (*) (/) self s
         \<and> Simpson_calc self s =
             Inr (Partition_length (Interval_partitions interval ! 0) / 3
                  * (Point_y (points ! 0)
                     + Point_y (points ! length (Interval_partitions interval))
                     + 4 * (\<Sum>i | i < length (Interval_partitions interval) \<and> odd i.
                              Point_y (points ! i))
                     + 2 * (\<Sum>i | 0 < i \<and> i < length (Interval_partitions interval) \<and> even i.
                              Point_y (points ! i))), s)"
    by (intro exI [where x = points] conjI)
next
  show "Interval_init 0 2 2 = Inr interval_0_2_2" by (rule Interval_init_0_2_2)
next
  show "Simpson_init f_x2 interval_0_2_2 = Inr (Quadrature_init f_x2 interval_0_2_2 Method_left)"
    by (rule Simpson_init_0_2_2)
next
  have ne: "Interval_partitions interval_0_2_2 \<noteq> []" by (simp add: interval_0_2_2_def)
  show "Simpson_calc (Quadrature_init f_x2 interval_0_2_2 Method_left) s = Inr (8 / 3, s)"
    unfolding Simpson_calc_left [OF ne]
    by (simp add: interval_0_2_2_def f_x2_def Partition_length_def)
qed

theorem Simpson_calc_rule_witness:
  "(Simpson_init f_x2 interval_0_2_2 :: error + unit Quadrature) =
     Inr (Quadrature_init f_x2 interval_0_2_2 Method_left)
   \<and> Interval_partitions interval_0_2_2 \<noteq> []
   \<and> Simpson_points (Quadrature_init f_x2 interval_0_2_2 Method_left) () =
       Inr ([\<lparr>Point_x = 0, Point_y = 0\<rparr>, \<lparr>Point_x = 1, Point_y = 1\<rparr>,
             \<lparr>Point_x = 2, Point_y = 4\<rparr>], ())
   \<and> Simpson_calc_with (\<lambda>a b. round_double (a + b)) (\<lambda>a b. round_double (a * b))
         (\<lambda>a b. round_double (a / b)) (Quadrature_init f_x2 interval_0_2_2 Method_left) () =
       Inr (round_double (round_double (round_double (round_double (0 + 4)
              + round_double (4 * 1)) * 1) / 3), ())
   \<and> Simpson_calc (Quadrature_init f_x2 interval_0_2_2 Method_left) () =
       Inr (1 / 3 * (0 + 4 + 4 * 1 + 2 * 0), ())"
proof -
  have i: "(Simpson_init f_x2 interval_0_2_2 :: error + unit Quadrature) =
     Inr (Quadrature_init f_x2 interval_0_2_2 Method_left)"
    by (rule Simpson_init_0_2_2)
  have ne: "Interval_partitions interval_0_2_2 \<noteq> []" by (simp add: interval_0_2_2_def)
  have p: "Simpson_points (Quadrature_init f_x2 interval_0_2_2 Method_left) () =
       Inr ([\<lparr>Point_x = 0, Point_y = 0\<rparr>, \<lparr>Point_x = 1, Point_y = 1\<rparr>,
             \<lparr>Point_x = 2, Point_y = 4\<rparr>], ())"
    by (simp add: Simpson_points_left) (simp add: interval_0_2_2_def f_x2_def)
  have n: "length (Interval_partitions interval_0_2_2) = 2"
    and h: "Partition_length (Interval_partitions interval_0_2_2 ! 0) = 1"
    by (simp_all add: interval_0_2_2_def Partition_length_def)
  have odds: "{i::nat. i < 2 \<and> odd i} = {1}" by (auto simp: less_2_cases_iff)
  have evens: "{i::nat. 0 < i \<and> i < 2 \<and> even i} = {}" by (auto simp: less_2_cases_iff)
  from Simpson_calc_rule [of f_x2 interval_0_2_2 "()"]
  have "\<forall>self. Simpson_init f_x2 interval_0_2_2 = Inr self \<longrightarrow>
          Interval_partitions interval_0_2_2 \<noteq> [] \<longrightarrow>
      (\<exists>points. Simpson_points self () = Inr (points, ())
         \<and> length points = length (Interval_partitions interval_0_2_2) + 1
         \<and> even (length (Interval_partitions interval_0_2_2))
         \<and> (\<forall>fadd fmul fdiv.
              Simpson_calc_with fadd fmul fdiv self () =
                Inr (fdiv
                       (fmul
                          (fold (\<lambda>k area. fadd area (fmul 2 (Point_y (points ! (2 * k + 2)))))
                             [0 ..< (length (Interval_partitions interval_0_2_2) - 1) div 2]
                             (fold (\<lambda>k area. fadd area (fmul 4 (Point_y (points ! (2 * k + 1)))))
                                [0 ..< length (Interval_partitions interval_0_2_2) div 2]
                                (fadd (Point_y (points ! 0))
                                   (Point_y (points ! length (Interval_partitions interval_0_2_2))))))
                          (Partition_length (Interval_partitions interval_0_2_2 ! 0)))
                       3, ()))
         \<and> Simpson_calc self () = Simpson_calc_with (+) (*) (/) self ()
         \<and> Simpson_calc self () =
             Inr (Partition_length (Interval_partitions interval_0_2_2 ! 0) / 3
                  * (Point_y (points ! 0)
                     + Point_y (points ! length (Interval_partitions interval_0_2_2))
                     + 4 * (\<Sum>i | i < length (Interval_partitions interval_0_2_2) \<and> odd i.
                              Point_y (points ! i))
                     + 2 * (\<Sum>i | 0 < i \<and> i < length (Interval_partitions interval_0_2_2) \<and> even i.
                              Point_y (points ! i))), ()))"
    by (rule conjunct1)
  from this [rule_format, OF i ne]
  obtain points where
    q: "Simpson_points (Quadrature_init f_x2 interval_0_2_2 Method_left) () = Inr (points, ())"
    and g: "\<forall>fadd fmul fdiv.
              Simpson_calc_with fadd fmul fdiv (Quadrature_init f_x2 interval_0_2_2 Method_left) () =
                Inr (fdiv
                       (fmul
                          (fold (\<lambda>k area. fadd area (fmul 2 (Point_y (points ! (2 * k + 2)))))
                             [0 ..< (length (Interval_partitions interval_0_2_2) - 1) div 2]
                             (fold (\<lambda>k area. fadd area (fmul 4 (Point_y (points ! (2 * k + 1)))))
                                [0 ..< length (Interval_partitions interval_0_2_2) div 2]
                                (fadd (Point_y (points ! 0))
                                   (Point_y (points ! length (Interval_partitions interval_0_2_2))))))
                          (Partition_length (Interval_partitions interval_0_2_2 ! 0)))
                       3, ())"
    and c: "Simpson_calc (Quadrature_init f_x2 interval_0_2_2 Method_left) () =
             Inr (Partition_length (Interval_partitions interval_0_2_2 ! 0) / 3
                  * (Point_y (points ! 0)
                     + Point_y (points ! length (Interval_partitions interval_0_2_2))
                     + 4 * (\<Sum>i | i < length (Interval_partitions interval_0_2_2) \<and> odd i.
                              Point_y (points ! i))
                     + 2 * (\<Sum>i | 0 < i \<and> i < length (Interval_partitions interval_0_2_2) \<and> even i.
                              Point_y (points ! i))), ())"
    by (elim exE conjE)
  from q p have pts: "points = [\<lparr>Point_x = 0, Point_y = 0\<rparr>, \<lparr>Point_x = 1, Point_y = 1\<rparr>,
             \<lparr>Point_x = 2, Point_y = 4\<rparr>]"
    by simp
  from c have 1: "Simpson_calc (Quadrature_init f_x2 interval_0_2_2 Method_left) () =
       Inr (1 / 3 * (0 + 4 + 4 * 1 + 2 * 0), ())"
    unfolding n h odds evens pts by simp
  from g
  have 2: "Simpson_calc_with (\<lambda>a b. round_double (a + b)) (\<lambda>a b. round_double (a * b))
         (\<lambda>a b. round_double (a / b)) (Quadrature_init f_x2 interval_0_2_2 Method_left) () =
       Inr (round_double (round_double (round_double (round_double (0 + 4)
              + round_double (4 * 1)) * 1) / 3), ())"
    unfolding n h pts by (simp add: numeral_2_eq_2)
  from i ne p 1 2 show ?thesis by blast
qed

subsection \<open>The parabolas of a Simpson instance\<close>







end
